theory Spec2Isabelle
  imports Main
begin

section \<open>JavaScript string and array primitives used by the event layer\<close>

text \<open>
  \<open>String.prototype.split\<close> with a one-character separator: the result always has at
  least one element, and \<open>''''.split('.')\<close> is the one-element array holding the empty
  string.
\<close>

fun js_split :: "char \<Rightarrow> string \<Rightarrow> string list" where
  "js_split sep [] = [[]]"
| "js_split sep (c # cs) =
     (if c = sep then [] # js_split sep cs
      else (case js_split sep cs of
              [] \<Rightarrow> [[c]]
            | p # ps \<Rightarrow> (c # p) # ps))"

text \<open>
  \<open>String.prototype.replace\<close> called with a string pattern (not a regular expression)
  replaces the first occurrence only. The publisher calls it with the one-character
  pattern \<open>'.'\<close>.
\<close>

fun js_replace_first :: "char \<Rightarrow> char \<Rightarrow> string \<Rightarrow> string" where
  "js_replace_first a b [] = []"
| "js_replace_first a b (c # cs) =
     (if c = a then b # cs else c # js_replace_first a b cs)"

text \<open>Array indexing: an index past the end reads \<open>undefined\<close>, here \<open>None\<close>.\<close>

fun js_index :: "'a list \<Rightarrow> nat \<Rightarrow> 'a option" where
  "js_index [] i = None"
| "js_index (x # xs) 0 = Some x"
| "js_index (x # xs) (Suc i) = js_index xs i"

section \<open>Consumer: routing-pattern matcher (shared-utils/rabbitmq/consumer.js)\<close>

text \<open>
  The body of the \<open>for\<close> loop of \<open>matchPattern\<close>, from index \<open>i\<close> on, followed by the
  final length comparison.
\<close>

function matchLoop :: "string list \<Rightarrow> string list \<Rightarrow> nat \<Rightarrow> bool" where
  "matchLoop routingParts patternParts i =
     (if i < max (length routingParts) (length patternParts) then
        (let routingPart = js_index routingParts i;
             patternPart = js_index patternParts i
         in if patternPart = Some ''#'' then True
            else if patternPart = Some ''*'' then matchLoop routingParts patternParts (Suc i)
            else if routingPart \<noteq> patternPart then False
            else matchLoop routingParts patternParts (Suc i))
      else length routingParts = length patternParts)"
  by pat_completeness auto
termination
  by (relation "measure (\<lambda>(rs, ps, i). max (length rs) (length ps) - i)") auto

definition matchPattern :: "string \<Rightarrow> string \<Rightarrow> bool" where
  "matchPattern routingKey pattern =
     (if pattern = ''#'' then True
      else matchLoop (js_split CHR ''.'' routingKey) (js_split CHR ''.'' pattern) 0)"

section \<open>Publisher (publisher.js)\<close>

text \<open>
  What \<open>channel.publish\<close> receives: the exchange, the routing key, the message envelope
  and the persistence flag. The payload type is left open.
\<close>

record 'd event_message =
  msg_eventType :: string
  msg_data :: 'd
  msg_timestamp :: string
  msg_id :: string

record 'd publication =
  pub_exchange :: string
  pub_routingKey :: string
  pub_message :: "'d event_message"
  pub_persistent :: bool

text \<open>
  The broker as the publisher sees it: \<open>connection.connect()\<close> either throws or yields a
  channel, \<open>channel.publish\<close> either throws or sends; the clock and the UUID generator
  supply the envelope's timestamp and id.
\<close>

record broker =
  connect_error :: "string option"
  publish_error :: "string option"
  clock :: string
  uuid :: string

definition exchangeName :: string where
  "exchangeName = ''management_app_events''"

text \<open>
  \<open>routingKey || eventType.replace('.', '_')\<close>: the empty string is falsy, and it is
  also the default of the parameter.
\<close>

definition routingPattern :: "string \<Rightarrow> string \<Rightarrow> string" where
  "routingPattern routingKey eventType =
     (if routingKey \<noteq> [] then routingKey
      else js_replace_first CHR ''.'' CHR ''_'' eventType)"

definition publishEvent ::
  "broker \<Rightarrow> string \<Rightarrow> 'd \<Rightarrow> string \<Rightarrow> string + 'd publication" where
  "publishEvent br evType payload routingKey =
     (case connect_error br of
        Some err \<Rightarrow> Inl err
      | None \<Rightarrow>
          (case publish_error br of
             Some err \<Rightarrow> Inl err
           | None \<Rightarrow>
               Inr \<lparr> pub_exchange = exchangeName,
                     pub_routingKey = routingPattern routingKey evType,
                     pub_message = \<lparr> msg_eventType = evType, msg_data = payload,
                                     msg_timestamp = clock br, msg_id = uuid br \<rparr>,
                     pub_persistent = True \<rparr>))"

text \<open>The convenience method for card events passes an explicit dot-separated key.\<close>

definition publishCardEvent :: "broker \<Rightarrow> string \<Rightarrow> 'd \<Rightarrow> string + 'd publication" where
  "publishCardEvent br evType cardData =
     publishEvent br evType cardData
       (''card.'' @ (case js_index (js_split CHR ''.'' evType) 1 of
                       None \<Rightarrow> ''undefined'' | Some s \<Rightarrow> s))"

section \<open>Consumer: handler registry and delivery callback (consumer.js)\<close>

text \<open>
  The registry is a JavaScript \<open>Map\<close>: iteration follows insertion order, and \<open>set\<close> on
  a key that is already present replaces the value in place. A handler either returns
  or throws (\<open>Inl\<close>).
\<close>

type_synonym 'm handler = "'m \<Rightarrow> string + unit"

fun map_set :: "('k \<times> 'v) list \<Rightarrow> 'k \<Rightarrow> 'v \<Rightarrow> ('k \<times> 'v) list" where
  "map_set [] k v = [(k, v)]"
| "map_set ((k', v') # kvs) k v =
     (if k' = k then (k, v) # kvs else (k', v') # map_set kvs k v)"

definition registerHandler ::
  "(string \<times> 'm handler) list \<Rightarrow> string \<Rightarrow> 'm handler \<Rightarrow> (string \<times> 'm handler) list" where
  "registerHandler handlers eventPattern handlerFunction =
     map_set handlers eventPattern handlerFunction"

text \<open>
  A delivery carries the raw content and the routing key (\<open>msg.fields.routingKey\<close>).
  \<open>JSON.parse\<close> is a parameter: it throws (\<open>Inl\<close>) or yields a value, which may be
  \<open>null\<close>; reading \<open>message.eventType\<close> of \<open>null\<close> throws a TypeError.
\<close>

record 'c delivery =
  dlv_content :: 'c
  dlv_routingKey :: string

datatype 'm json_value = JNull | JValue 'm

text \<open>What the callback does to the outside world, in program order.\<close>

datatype consumer_effect =
    LogReceived
  | Invoked string
  | LogWarnNoHandler
  | Ack
  | LogError string
  | NackRequeue

text \<open>
  The \<open>for ... of this.handlers\<close> loop: the first entry whose pattern matches is
  invoked and the loop breaks. The result is the effects so far and either the thrown
  error or the final value of \<open>handled\<close>.
\<close>

fun dispatch ::
  "(string \<times> 'm handler) list \<Rightarrow> string \<Rightarrow> 'm \<Rightarrow> consumer_effect list \<times> (string + bool)" where
  "dispatch [] routingKey message = ([], Inr False)"
| "dispatch ((pattern, handler) # rest) routingKey message =
     (if matchPattern routingKey pattern then
        (case handler message of
           Inl err \<Rightarrow> ([Invoked pattern], Inl err)
         | Inr _ \<Rightarrow> ([Invoked pattern], Inr True))
      else dispatch rest routingKey message)"

definition onMessage ::
  "(string \<times> 'm handler) list \<Rightarrow> ('c \<Rightarrow> string + 'm json_value) \<Rightarrow> 'c delivery option
     \<Rightarrow> consumer_effect list" where
  "onMessage handlers json_parse msg =
     (case msg of
        None \<Rightarrow> []
      | Some m \<Rightarrow>
          (case json_parse (dlv_content m) of
             Inl err \<Rightarrow> [LogError err, NackRequeue]
           | Inr JNull \<Rightarrow> [LogError ''TypeError'', NackRequeue]
           | Inr (JValue message) \<Rightarrow>
               (case dispatch handlers (dlv_routingKey m) message of
                  (effs, Inl err) \<Rightarrow> LogReceived # effs @ [LogError err, NackRequeue]
                | (effs, Inr handled) \<Rightarrow>
                    LogReceived # effs
                      @ (if handled then [] else [LogWarnNoHandler]) @ [Ack])))"

text \<open>The first registered entry whose pattern matches the routing key, if any.\<close>

definition firstMatch :: "(string \<times> 'm handler) list \<Rightarrow> string \<Rightarrow> (string \<times> 'm handler) option" where
  "firstMatch handlers routingKey = find (\<lambda>(p, h). matchPattern routingKey p) handlers"

section \<open>Real-time layer: per-connection session (socketHandler.js)\<close>

text \<open>
  What the handlers keep per socket: the authenticated user, the rooms the socket is
  in, the \<open>currentBoard\<close> property (\<open>None\<close> for \<open>undefined\<close> and \<open>null\<close>), the pending
  typing timeout with the data its callback closes over, and the broadcasts sent so far
  through \<open>socket.to(room).emit\<close>.
\<close>

datatype server_event =
    UserJoinedBoard
  | UserLeftBoard
  | UserTyping string
  | UserStoppedTyping string
  | UserPresenceUpdated string

record session =
  ss_userId :: string
  ss_rooms :: "string set"
  ss_currentBoard :: "string option"
  ss_typingTimer :: "(string \<times> string) option"
  ss_outbox :: "(string \<times> server_event) list"

definition board_room :: "string \<Rightarrow> string" where
  "board_room boardId = ''board:'' @ boardId"

definition user_room :: "string \<Rightarrow> string" where
  "user_room userId = ''user:'' @ userId"

text \<open>JavaScript truthiness of a string-valued property: set and not the empty string.\<close>

fun truthy :: "string option \<Rightarrow> bool" where
  "truthy None = False"
| "truthy (Some v) = (v \<noteq> [])"

definition emit :: "session \<Rightarrow> string \<Rightarrow> server_event \<Rightarrow> session" where
  "emit s room ev = s\<lparr>ss_outbox := ss_outbox s @ [(room, ev)]\<rparr>"

definition joinBoardRoom :: "session \<Rightarrow> string \<Rightarrow> session" where
  "joinBoardRoom s boardId =
     emit (s\<lparr>ss_rooms := insert (board_room boardId) (ss_rooms s),
              ss_currentBoard := Some boardId\<rparr>)
          (board_room boardId) UserJoinedBoard"

definition leaveBoardRoom :: "session \<Rightarrow> string \<Rightarrow> session" where
  "leaveBoardRoom s boardId =
     emit (s\<lparr>ss_rooms := ss_rooms s - {board_room boardId}\<rparr>)
          (board_room boardId) UserLeftBoard"

text \<open>\<open>io.on('connection')\<close>: the socket joins its personal room.\<close>

definition on_connection :: "string \<Rightarrow> session" where
  "on_connection userId =
     \<lparr> ss_userId = userId, ss_rooms = {user_room userId}, ss_currentBoard = None,
       ss_typingTimer = None, ss_outbox = [] \<rparr>"

definition on_join_board :: "session \<Rightarrow> string \<Rightarrow> session" where
  "on_join_board s boardId =
     joinBoardRoom
       (case ss_currentBoard s of
          None \<Rightarrow> s
        | Some cur \<Rightarrow> if truthy (Some cur) \<and> cur \<noteq> boardId then leaveBoardRoom s cur else s)
       boardId"

definition on_leave_board :: "session \<Rightarrow> string \<Rightarrow> session" where
  "on_leave_board s boardId = (leaveBoardRoom s boardId)\<lparr>ss_currentBoard := None\<rparr>"

text \<open>
  Typing indicators. \<open>clearTimeout\<close> on a timer that has already fired does nothing, so
  only the pending timeout is kept.
\<close>

definition on_start_typing :: "session \<Rightarrow> string \<Rightarrow> string \<Rightarrow> session" where
  "on_start_typing s boardId cardId =
     (emit s (board_room boardId) (UserTyping cardId))
       \<lparr>ss_typingTimer := Some (boardId, cardId)\<rparr>"

definition on_stop_typing :: "session \<Rightarrow> string \<Rightarrow> string \<Rightarrow> session" where
  "on_stop_typing s boardId cardId =
     (emit s (board_room boardId) (UserStoppedTyping cardId))\<lparr>ss_typingTimer := None\<rparr>"

text \<open>The timeout callback, run by the event loop three seconds after the last keystroke.\<close>

definition on_typing_timeout :: "session \<Rightarrow> session" where
  "on_typing_timeout s =
     (case ss_typingTimer s of
        None \<Rightarrow> s
      | Some (boardId, cardId) \<Rightarrow>
          (emit s (board_room boardId) (UserStoppedTyping cardId))\<lparr>ss_typingTimer := None\<rparr>)"

definition on_update_presence :: "session \<Rightarrow> string \<Rightarrow> string \<Rightarrow> session" where
  "on_update_presence s boardId status =
     emit s (board_room boardId) (UserPresenceUpdated status)"

text \<open>
  The \<open>disconnect\<close> handler: two consecutive \<open>if (socket.currentBoard)\<close> blocks;
  \<open>leaveBoardRoom\<close> does not reset \<open>currentBoard\<close>, so both run or neither.
\<close>

definition on_disconnect :: "session \<Rightarrow> session" where
  "on_disconnect s =
     (let s1 = (case ss_currentBoard s of
                  None \<Rightarrow> s
                | Some cur \<Rightarrow> if truthy (Some cur) then leaveBoardRoom s cur else s)
      in case ss_currentBoard s1 of
           None \<Rightarrow> s1
         | Some cur \<Rightarrow>
             if truthy (Some cur)
             then emit s1 (board_room cur) (UserPresenceUpdated ''offline'')
             else s1)"

text \<open>
  Transport loss as socket.io carries it out: the socket first leaves every room it is
  in, the personal one included, and only then is the \<open>disconnect\<close> event delivered to
  the handler. The handler's own \<open>socket.leave\<close> finds nothing left to leave; its
  broadcasts through \<open>socket.to(room)\<close> still reach the other members of the room.
\<close>

definition transport_close :: "session \<Rightarrow> session" where
  "transport_close s = on_disconnect (s\<lparr>ss_rooms := {}\<rparr>)"

datatype client_event =
    JoinBoard string
  | LeaveBoard string
  | StartTyping string string
  | StopTyping string string
  | UpdatePresence string string
  | TypingTimeout
  | Disconnect

fun handle_event :: "session \<Rightarrow> client_event \<Rightarrow> session" where
  "handle_event s (JoinBoard b) = on_join_board s b"
| "handle_event s (LeaveBoard b) = on_leave_board s b"
| "handle_event s (StartTyping b c) = on_start_typing s b c"
| "handle_event s (StopTyping b c) = on_stop_typing s b c"
| "handle_event s (UpdatePresence b st) = on_update_presence s b st"
| "handle_event s TypingTimeout = on_typing_timeout s"
| "handle_event s Disconnect = transport_close s"

definition handle_events :: "session \<Rightarrow> client_event list \<Rightarrow> session" where
  "handle_events s evs = foldl handle_event s evs"

text \<open>The board rooms a session is in: its rooms whose name starts with \<open>board:\<close>.\<close>

definition boardRooms :: "session \<Rightarrow> string set" where
  "boardRooms s = Set.filter (\<lambda>r. take 6 r = ''board:'') (ss_rooms s)"

section \<open>Permission model (Board.js, Workspace.js)\<close>

record member =
  mb_userId :: string
  mb_role :: string

record board =
  b_id :: string
  b_owner :: string
  b_members :: "member list"
  b_totalLists :: int
  b_totalCards :: int

text \<open>
  \<open>roleHierarchy[role]\<close> on the object literal \<open>{ viewer: 1, member: 2, admin: 3 }\<close>: a
  number for its three own keys; for a key inherited from \<open>Object.prototype\<close> the
  inherited member; \<open>undefined\<close> (\<open>None\<close>) for every other name. The comparison \<open>>=\<close>
  first turns each operand into a primitive: a number stays, an inherited function
  becomes its source text, and the prototype object read through \<open>__proto__\<close> becomes
  \<open>[object Object]\<close>. The value kept here is that primitive.
\<close>

datatype js_prim = JNum nat | JStr string

definition nativeSource :: "string \<Rightarrow> string" where
  "nativeSource name = ''function '' @ name @ ''() { [native code] }''"

definition inheritedMethods :: "string list" where
  "inheritedMethods =
     [''__defineGetter__'', ''__defineSetter__'', ''hasOwnProperty'', ''__lookupGetter__'',
      ''__lookupSetter__'', ''isPrototypeOf'', ''propertyIsEnumerable'', ''toString'',
      ''valueOf'', ''toLocaleString'']"

definition roleHierarchy :: "string \<Rightarrow> js_prim option" where
  "roleHierarchy role =
     (if role = ''viewer'' then Some (JNum 1)
      else if role = ''member'' then Some (JNum 2)
      else if role = ''admin'' then Some (JNum 3)
      else if role = ''constructor'' then Some (JStr (nativeSource ''Object''))
      else if role \<in> set inheritedMethods then Some (JStr (nativeSource role))
      else if role = ''__proto__'' then Some (JStr ''[object Object]'')
      else None)"

text \<open>Strings compare by code units, the first difference deciding.\<close>

fun str_less :: "string \<Rightarrow> string \<Rightarrow> bool" where
  "str_less [] [] = False"
| "str_less [] (y # ys) = True"
| "str_less (x # xs) [] = False"
| "str_less (x # xs) (y # ys) =
     ((of_char x :: nat) < of_char y \<or> (x = y \<and> str_less xs ys))"

text \<open>
  \<open>a >= b\<close>: two numbers compare as numbers and two strings as strings; a number against
  a string that is no numeral, and anything against \<open>undefined\<close>, compares \<open>NaN\<close> and is
  false.
\<close>

fun js_ge :: "js_prim option \<Rightarrow> js_prim option \<Rightarrow> bool" where
  "js_ge (Some (JNum a)) (Some (JNum b)) = (a \<ge> b)"
| "js_ge (Some (JStr a)) (Some (JStr b)) = (\<not> str_less a b)"
| "js_ge _ _ = False"

definition isMember :: "board \<Rightarrow> string \<Rightarrow> bool" where
  "isMember b userId =
     (list_ex (\<lambda>m. mb_userId m = userId) (b_members b) \<or> b_owner b = userId)"

definition hasPermission :: "board \<Rightarrow> string \<Rightarrow> string \<Rightarrow> bool" where
  "hasPermission b userId requiredRole =
     (if b_owner b = userId then True
      else (case find (\<lambda>m. mb_userId m = userId) (b_members b) of
              None \<Rightarrow> False
            | Some m \<Rightarrow> js_ge (roleHierarchy (mb_role m)) (roleHierarchy requiredRole)))"

section \<open>Document store (the List, Board and Card collections)\<close>

record list_doc =
  l_id :: string
  l_name :: string
  l_boardId :: string
  l_position :: int
  l_isArchived :: bool

record card_doc =
  c_id :: string
  c_listId :: string
  c_isArchived :: bool

record workspace_doc =
  w_id :: string
  w_name :: string
  w_slug :: string
  w_owner :: string
  w_members :: "member list"

record store =
  st_lists :: "list_doc list"
  st_boards :: "board list"
  st_cards :: "card_doc list"
  st_workspaces :: "workspace_doc list"

definition findListById :: "list_doc list \<Rightarrow> string \<Rightarrow> list_doc option" where
  "findListById ls i = find (\<lambda>d. l_id d = i) ls"

definition findBoardById :: "board list \<Rightarrow> string \<Rightarrow> board option" where
  "findBoardById bs i = find (\<lambda>b. b_id b = i) bs"

text \<open>\<open>List.updateMany(filter, {$inc: {position: k}})\<close>.\<close>

definition updateManyInc :: "(list_doc \<Rightarrow> bool) \<Rightarrow> int \<Rightarrow> list_doc list \<Rightarrow> list_doc list" where
  "updateManyInc flt k ls =
     map (\<lambda>d. if flt d then d\<lparr>l_position := l_position d + k\<rparr> else d) ls"

text \<open>
  \<open>save()\<close> of a fetched document writes the modified paths of the document with that
  id; \<open>save()\<close> of a new document inserts it.
\<close>

definition updateListById :: "string \<Rightarrow> (list_doc \<Rightarrow> list_doc) \<Rightarrow> list_doc list \<Rightarrow> list_doc list" where
  "updateListById i f ls = map (\<lambda>d. if l_id d = i then f d else d) ls"

definition saveBoard :: "board \<Rightarrow> board list \<Rightarrow> board list" where
  "saveBoard b bs = map (\<lambda>b'. if b_id b' = b_id b then b else b') bs"

fun deleteListById :: "string \<Rightarrow> list_doc list \<Rightarrow> list_doc list" where
  "deleteListById i [] = []"
| "deleteListById i (d # ds) = (if l_id d = i then ds else d # deleteListById i ds)"

text \<open>
  \<open>List.findOne({boardId, isArchived: false}).sort({position: -1})\<close>: the position of a
  non-archived list of the board with the greatest position, if there is one.
\<close>

definition activeLists :: "list_doc list \<Rightarrow> string \<Rightarrow> list_doc list" where
  "activeLists ls boardId = filter (\<lambda>d. l_boardId d = boardId \<and> \<not> l_isArchived d) ls"

definition maxPosition :: "list_doc list \<Rightarrow> string \<Rightarrow> int option" where
  "maxPosition ls boardId =
     (case activeLists ls boardId of
        [] \<Rightarrow> None
      | d # ds \<Rightarrow> Some (fold max (map l_position ds) (l_position d)))"

section \<open>List controller (listController.js)\<close>

datatype http_status =
  OK | CREATED | BAD_REQUEST | FORBIDDEN | NOT_FOUND | CONFLICT | INTERNAL_SERVER_ERROR

text \<open>
  The data of the published events, field by field as the controllers build it
  (timestamps of the documents are not modelled): list created: list id, name, board
  id, position, creating user; list updated: list id, name, board id, previous name,
  updating user; workspace created: workspace id, name, slug, owner.
\<close>

datatype payload =
    ListCreatedData string string string int string
  | ListUpdatedData string string string string string
  | WorkspaceCreatedData string string string string

text \<open>
  What a request does besides changing the store, in program order: activity-log
  entries, published events, errors logged, and real-time broadcasts made through
  \<open>io.listHandlers\<close> (event name and board id).
\<close>

datatype effect =
    Activity string
  | Published "payload publication"
  | LoggedError string string
  | Realtime string string

record outcome =
  oc_status :: http_status
  oc_message :: string
  oc_store :: store
  oc_effects :: "effect list"

text \<open>
  The collaborators of a request: the broker; whether \<open>req.app.get('io')\<close> carries the
  handler tables; whether the process runs in production (the error middleware then
  hides the message of an uncaught error); and the helpers
  \<open>stringHelpers.capitalizeWords\<close> and \<open>stringHelpers.generateSlug\<close>. The two helpers are
  regular-expression rewrites of a name over Unicode text; they are kept as parameters,
  so that every result below holds for whatever they return. The storage calls and the
  activity logger (which catches its own errors) are taken not to throw.
\<close>

record deps =
  dp_broker :: broker
  dp_io :: bool
  dp_production :: bool
  dp_capitalizeWords :: "string \<Rightarrow> string"
  dp_generateSlug :: "string \<Rightarrow> string"

definition respond :: "http_status \<Rightarrow> string \<Rightarrow> store \<Rightarrow> effect list \<Rightarrow> outcome" where
  "respond st msg s effs =
     \<lparr> oc_status = st, oc_message = msg, oc_store = s, oc_effects = effs \<rparr>"

text \<open>
  \<open>try { await publisher.publishEvent(type, data) } catch (e) { logger.error(msg, e) }\<close>:
  when the publisher throws it has logged the error itself before rethrowing, and the
  controller logs it once more and goes on.
\<close>

definition tryPublish :: "deps \<Rightarrow> string \<Rightarrow> payload \<Rightarrow> string \<Rightarrow> effect list" where
  "tryPublish dp evType pl failMsg =
     (case publishEvent (dp_broker dp) evType pl [] of
        Inl err \<Rightarrow> [LoggedError ''Failed to publish event:'' err, LoggedError failMsg err]
      | Inr p \<Rightarrow> [Published p])"

definition emitRealtime :: "deps \<Rightarrow> string \<Rightarrow> string \<Rightarrow> effect list" where
  "emitRealtime dp ev boardId = (if dp_io dp then [Realtime ev boardId] else [])"

definition createList ::
  "deps \<Rightarrow> store \<Rightarrow> string \<Rightarrow> string \<Rightarrow> string \<Rightarrow> string \<Rightarrow> int option \<Rightarrow> outcome" where
  "createList dp s userId newId name boardId position =
     (case findBoardById (st_boards s) boardId of
        None \<Rightarrow> respond NOT_FOUND ''Board not found'' s []
      | Some board \<Rightarrow>
          if \<not> isMember board userId then
            respond FORBIDDEN ''Access denied to board'' s []
          else if \<not> hasPermission board userId ''member'' then
            respond FORBIDDEN ''Insufficient permissions to create lists'' s []
          else
            (let (finalPosition, ls1) =
                   (case position of
                      None \<Rightarrow>
                        ((case maxPosition (st_lists s) boardId of
                            None \<Rightarrow> 0 | Some m \<Rightarrow> m + 1),
                         st_lists s)
                    | Some p \<Rightarrow>
                        (p, updateManyInc
                              (\<lambda>d. l_boardId d = boardId \<and> l_position d \<ge> p
                                    \<and> \<not> l_isArchived d)
                              1 (st_lists s)));
                 list = \<lparr> l_id = newId, l_name = dp_capitalizeWords dp name,
                          l_boardId = boardId, l_position = finalPosition,
                          l_isArchived = False \<rparr>;
                 ls2 = ls1 @ [list];
                 bs = saveBoard (board\<lparr>b_totalLists := b_totalLists board + 1\<rparr>) (st_boards s);
                 s' = s\<lparr>st_lists := ls2, st_boards := bs\<rparr>
             in respond CREATED ''List created successfully'' s'
                  ([Activity ''list_created'']
                   @ tryPublish dp ''list.created''
                       (ListCreatedData newId (l_name list) boardId finalPosition userId)
                       ''Failed to publish list creation event:''
                   @ emitRealtime dp ''list_created'' boardId)))"


definition moveList :: "deps \<Rightarrow> store \<Rightarrow> string \<Rightarrow> string \<Rightarrow> int \<Rightarrow> outcome" where
  "moveList dp s userId listId newPosition =
     (case findListById (st_lists s) listId of
        None \<Rightarrow> respond NOT_FOUND ''List not found'' s []
      | Some list \<Rightarrow>
          (case findBoardById (st_boards s) (l_boardId list) of
             None \<Rightarrow> respond FORBIDDEN ''Insufficient permissions'' s []
           | Some board \<Rightarrow>
               if \<not> hasPermission board userId ''member'' then
                 respond FORBIDDEN ''Insufficient permissions'' s []
               else
                 (let oldPosition = l_position list in
                  if oldPosition = newPosition then
                    respond OK ''List position unchanged'' s []
                  else
                    (let ls1 =
                           (if newPosition > oldPosition then
                              updateManyInc
                                (\<lambda>d. l_boardId d = l_boardId list
                                      \<and> l_position d > oldPosition \<and> l_position d \<le> newPosition
                                      \<and> l_id d \<noteq> listId \<and> \<not> l_isArchived d)
                                (- 1) (st_lists s)
                            else
                              updateManyInc
                                (\<lambda>d. l_boardId d = l_boardId list
                                      \<and> l_position d \<ge> newPosition \<and> l_position d < oldPosition
                                      \<and> l_id d \<noteq> listId \<and> \<not> l_isArchived d)
                                1 (st_lists s));
                         ls2 = updateListById listId (\<lambda>d. d\<lparr>l_position := newPosition\<rparr>) ls1
                     in respond OK ''List moved successfully'' (s\<lparr>st_lists := ls2\<rparr>)
                          ([Activity ''list_moved'']
                           @ emitRealtime dp ''list_moved'' (l_boardId list))))))"

text \<open>Template-literal rendering of a non-negative integer: its decimal digits.\<close>

fun show_nat :: "nat \<Rightarrow> string" where
  "show_nat n =
     (if n < 10 then [char_of (48 + n)]
      else show_nat (n div 10) @ [char_of (48 + n mod 10)])"

declare show_nat.simps [simp del]

definition archiveList :: "deps \<Rightarrow> store \<Rightarrow> string \<Rightarrow> string \<Rightarrow> outcome" where
  "archiveList dp s userId listId =
     (case findListById (st_lists s) listId of
        None \<Rightarrow> respond NOT_FOUND ''List not found'' s []
      | Some list \<Rightarrow>
          (case findBoardById (st_boards s) (l_boardId list) of
             None \<Rightarrow> respond FORBIDDEN ''Insufficient permissions'' s []
           | Some board \<Rightarrow>
               if \<not> hasPermission board userId ''member'' then
                 respond FORBIDDEN ''Insufficient permissions'' s []
               else if l_isArchived list then
                 respond BAD_REQUEST ''List is already archived'' s []
               else
                 (let ls1 = updateListById listId (\<lambda>d. d\<lparr>l_isArchived := True\<rparr>) (st_lists s);
                      cs1 = map (\<lambda>c. if c_listId c = listId \<and> \<not> c_isArchived c
                                       then c\<lparr>c_isArchived := True\<rparr> else c) (st_cards s);
                      ls2 = updateManyInc
                              (\<lambda>d. l_boardId d = l_boardId list
                                    \<and> l_position d > l_position list \<and> \<not> l_isArchived d)
                              (- 1) ls1;
                      archivedCardCount =
                        int (length (filter (\<lambda>c. c_listId c = listId \<and> c_isArchived c) cs1));
                      bs = saveBoard
                             (board\<lparr>b_totalLists := b_totalLists board - 1,
                                    b_totalCards := b_totalCards board - archivedCardCount\<rparr>)
                             (st_boards s);
                      s' = s\<lparr>st_lists := ls2, st_cards := cs1, st_boards := bs\<rparr>
                  in if dp_io dp then
                       \<comment> \<open>\<open>io.listHandlers\<close> has no \<open>list_archived\<close> entry: the call throws\<close>
                       respond INTERNAL_SERVER_ERROR
                         (if dp_production dp then ''Internal server error''
                          else ''io.listHandlers.list_archived is not a function'')
                         s' [Activity ''list_archived'']
                     else
                       respond OK ''List archived successfully'' s'
                         [Activity ''list_archived''])))"

definition deleteList :: "deps \<Rightarrow> store \<Rightarrow> string \<Rightarrow> string \<Rightarrow> outcome" where
  "deleteList dp s userId listId =
     (case findListById (st_lists s) listId of
        None \<Rightarrow> respond NOT_FOUND ''List not found'' s []
      | Some list \<Rightarrow>
          (case findBoardById (st_boards s) (l_boardId list) of
             None \<Rightarrow> respond FORBIDDEN ''Insufficient permissions to delete list'' s []
           | Some board \<Rightarrow>
               if \<not> hasPermission board userId ''admin'' then
                 respond FORBIDDEN ''Insufficient permissions to delete list'' s []
               else
                 (let cardCount =
                        length (filter (\<lambda>c. c_listId c = listId \<and> \<not> c_isArchived c) (st_cards s))
                  in if cardCount > 0 then
                       respond BAD_REQUEST
                         (''Cannot delete list with '' @ show_nat cardCount
                            @ '' active cards. Please archive or move all cards first.'') s []
                     else
                       (let cs1 = filter (\<lambda>c. c_listId c \<noteq> listId) (st_cards s);
                            ls1 = updateManyInc
                                    (\<lambda>d. l_boardId d = l_boardId list
                                          \<and> l_position d > l_position list \<and> \<not> l_isArchived d)
                                    (- 1) (st_lists s);
                            ls2 = deleteListById listId ls1;
                            bs = saveBoard
                                   (if \<not> l_isArchived list
                                    then board\<lparr>b_totalLists := b_totalLists board - 1\<rparr>
                                    else board)
                                   (st_boards s);
                            s' = s\<lparr>st_lists := ls2, st_cards := cs1, st_boards := bs\<rparr>
                        in respond OK ''List deleted successfully'' s'
                             ([Activity ''list_deleted'']
                              @ emitRealtime dp ''list_deleted'' (l_boardId list))))))"

section \<open>Workspace controller (workspaceController.js)\<close>




section \<open>Position rules as the specification words them\<close>

text \<open>
  The scope of a list is its board, restricted to the lists that are not archived: this
  is the filter of every position query of the list controller.
\<close>

definition scopePositions :: "store \<Rightarrow> string \<Rightarrow> int list" where
  "scopePositions s boardId = map l_position (activeLists (st_lists s) boardId)"

text \<open>
  A list of positions is contiguous when it has no duplicates and its elements are
  exactly \<open>0, \<dots>, n - 1\<close> for \<open>n\<close> its length.
\<close>

definition contig :: "int list \<Rightarrow> bool" where
  "contig ps = (distinct ps \<and> set ps = {0 ..< int (length ps)})"


text \<open>
  The move rule of the specification, for one document: the list \<open>listId\<close> goes from
  \<open>old\<close> to \<open>new\<close>; among the other non-archived lists of the board, those strictly after
  \<open>old\<close> up to \<open>new\<close> step back by one when \<open>new > old\<close>, and those from \<open>new\<close> up to
  strictly before \<open>old\<close> step forward by one when \<open>new < old\<close>.
\<close>

definition spec_move :: "string \<Rightarrow> string \<Rightarrow> int \<Rightarrow> int \<Rightarrow> list_doc \<Rightarrow> list_doc" where
  "spec_move boardId listId old new d =
     (if l_id d = listId then d\<lparr>l_position := new\<rparr>
      else if l_boardId d = boardId \<and> \<not> l_isArchived d then
        (if new > old \<and> old < l_position d \<and> l_position d \<le> new
           then d\<lparr>l_position := l_position d - 1\<rparr>
         else if new < old \<and> new \<le> l_position d \<and> l_position d < old
           then d\<lparr>l_position := l_position d + 1\<rparr>
         else d)
      else d)"


text \<open>
  The position a created list receives: the requested one, or one past the greatest
  position of the scope when none is requested (0 in an empty scope).
\<close>

definition createdPosition :: "store \<Rightarrow> string \<Rightarrow> int option \<Rightarrow> int" where
  "createdPosition s boardId position =
     (case position of
        Some p \<Rightarrow> p
      | None \<Rightarrow> (case maxPosition (st_lists s) boardId of None \<Rightarrow> 0 | Some m \<Rightarrow> m + 1))"

text \<open>Requests to the list controller, and a sequence of them run against a store.\<close>

datatype list_request =
    CreateList string string string string "int option"
  | MoveList string string int
  | ArchiveList string string
  | DeleteList string string

fun handle_request :: "deps \<Rightarrow> store \<Rightarrow> list_request \<Rightarrow> store" where
  "handle_request dp s (CreateList userId newId name boardId position) =
     oc_store (createList dp s userId newId name boardId position)"
| "handle_request dp s (MoveList userId listId newPosition) =
     oc_store (moveList dp s userId listId newPosition)"
| "handle_request dp s (ArchiveList userId listId) =
     oc_store (archiveList dp s userId listId)"
| "handle_request dp s (DeleteList userId listId) =
     oc_store (deleteList dp s userId listId)"

fun handle_requests :: "deps \<Rightarrow> store \<Rightarrow> list_request list \<Rightarrow> store" where
  "handle_requests dp s [] = s"
| "handle_requests dp s (r # rs) = handle_requests dp (handle_request dp s r) rs"



text \<open>
  The guards of the list controller, gathered: a create passes when the board exists
  and the user is a member holding at least the member role; an operation on a list
  passes when the list and its board exist and the user holds the required role on it.
\<close>

definition canCreate :: "store \<Rightarrow> string \<Rightarrow> string \<Rightarrow> bool" where
  "canCreate s userId boardId =
     (case findBoardById (st_boards s) boardId of
        None \<Rightarrow> False
      | Some board \<Rightarrow> isMember board userId \<and> hasPermission board userId ''member'')"

definition canEdit :: "store \<Rightarrow> string \<Rightarrow> string \<Rightarrow> string \<Rightarrow> bool" where
  "canEdit s userId listId role =
     (case findListById (st_lists s) listId of
        None \<Rightarrow> False
      | Some list \<Rightarrow>
          (case findBoardById (st_boards s) (l_boardId list) of
             None \<Rightarrow> False
           | Some board \<Rightarrow> hasPermission board userId role))"

text \<open>The role ordering of the specification: viewer below member below admin.\<close>

definition roleRank :: "string \<Rightarrow> nat option" where
  "roleRank role =
     (if role = ''viewer'' then Some 1
      else if role = ''member'' then Some 2
      else if role = ''admin'' then Some 3
      else None)"

section \<open>A worked example\<close>

text \<open>
  One board owned by \<open>u1\<close> with four lists at positions 0 to 3, the same board with no
  list, a broker that works and one whose connection is refused.
\<close>

definition example_deps :: deps where
  "example_deps =
     \<lparr> dp_broker = \<lparr> connect_error = None, publish_error = None,
                      clock = ''2024-01-01T00:00:00.000Z'', uuid = ''m1'' \<rparr>,
       dp_io = True,
       dp_production = True,
       dp_capitalizeWords = (\<lambda>n. n),
       dp_generateSlug = (\<lambda>n. n) \<rparr>"

definition broker_down :: deps where
  "broker_down =
     example_deps\<lparr>dp_broker := (dp_broker example_deps)\<lparr>connect_error := Some ''ECONNREFUSED''\<rparr>\<rparr>"

definition example_list :: "string \<Rightarrow> int \<Rightarrow> list_doc" where
  "example_list i p =
     \<lparr> l_id = i, l_name = i, l_boardId = ''b1'', l_position = p, l_isArchived = False \<rparr>"

definition example_board :: board where
  "example_board =
     \<lparr> b_id = ''b1'', b_owner = ''u1'', b_members = [], b_totalLists = 4, b_totalCards = 0 \<rparr>"

definition example_store :: store where
  "example_store =
     \<lparr> st_lists = [example_list ''L0'' 0, example_list ''L1'' 1,
                   example_list ''L2'' 2, example_list ''L3'' 3],
       st_boards = [example_board], st_cards = [], st_workspaces = [] \<rparr>"

definition empty_board_store :: store where
  "empty_board_store =
     \<lparr> st_lists = [], st_boards = [example_board\<lparr>b_totalLists := 0\<rparr>],
       st_cards = [], st_workspaces = [] \<rparr>"


section \<open>Event layer: routing keys and pattern matching\<close>

text \<open>
  Claim C5. The matcher accepts routing key \<open>card.moved.urgent\<close> for the patterns
  \<open>card.*.*\<close> and \<open>card.#\<close>, rejects it for \<open>card.*\<close>, and the pattern \<open>#\<close> alone accepts
  every routing key, the empty string included.
\<close>

theorem matchPattern_examples:
  "matchPattern ''card.moved.urgent'' ''card.*.*''
   \<and> matchPattern ''card.moved.urgent'' ''card.#''
   \<and> \<not> matchPattern ''card.moved.urgent'' ''card.*''
   \<and> (\<forall>routingKey. matchPattern routingKey ''#'')
   \<and> matchPattern [] ''#''"
  by (simp add: matchPattern_def)

text \<open>
  Claim C1. Published without an explicit routing key, an event type should travel
  under itself as routing key. The publisher instead replaces the first dot of the event
  type by an underscore: \<open>card.moved\<close> is sent as \<open>card_moved\<close> and
  \<open>workspace.member.added\<close> as \<open>workspace_member.added\<close>, keys that no dot-separated
  pattern of the consumer such as \<open>card.*\<close> matches, whereas the convenience method
  \<open>publishCardEvent\<close> sends \<open>card.moved\<close> under \<open>card.moved\<close>.
\<close>

theorem publishEvent_default_routing_key:
  "map_sum (\<lambda>e. e) pub_routingKey
     (publishEvent \<lparr>connect_error = None, publish_error = None, clock = t, uuid = u\<rparr>
        ''card.moved'' payload []) = Inr ''card_moved''
   \<and> map_sum (\<lambda>e. e) pub_routingKey
     (publishEvent \<lparr>connect_error = None, publish_error = None, clock = t, uuid = u\<rparr>
        ''workspace.member.added'' payload []) = Inr ''workspace_member.added''
   \<and> \<not> matchPattern ''card_moved'' ''card.*''
   \<and> map_sum (\<lambda>e. e) pub_routingKey
     (publishCardEvent \<lparr>connect_error = None, publish_error = None, clock = t, uuid = u\<rparr>
        ''card.moved'' payload) = Inr ''card.moved''"
  by (simp add: publishEvent_def publishCardEvent_def routingPattern_def matchPattern_def)

section \<open>Consumer: acknowledgement discipline\<close>

lemma dispatch_firstMatch:
  "dispatch handlers routingKey message =
     (case firstMatch handlers routingKey of
        None \<Rightarrow> ([], Inr False)
      | Some (p, h) \<Rightarrow>
          (case h message of
             Inl err \<Rightarrow> ([Invoked p], Inl err)
           | Inr u \<Rightarrow> ([Invoked p], Inr True)))"
  by (induction handlers) (auto simp: firstMatch_def)

lemma onMessage_cases:
  "onMessage handlers json_parse (Some d) =
     (case json_parse (dlv_content d) of
        Inl err \<Rightarrow> [LogError err, NackRequeue]
      | Inr JNull \<Rightarrow> [LogError ''TypeError'', NackRequeue]
      | Inr (JValue message) \<Rightarrow>
          (case firstMatch handlers (dlv_routingKey d) of
             None \<Rightarrow> [LogReceived, LogWarnNoHandler, Ack]
           | Some (p, h) \<Rightarrow>
               (case h message of
                  Inl err \<Rightarrow> [LogReceived, Invoked p, LogError err, NackRequeue]
                | Inr u \<Rightarrow> [LogReceived, Invoked p, Ack])))"
  by (simp add: onMessage_def dispatch_firstMatch
           split: sum.splits json_value.splits option.splits prod.splits)

lemma firstMatch_None_iff:
  "firstMatch handlers routingKey = None
     \<longleftrightarrow> (\<forall>(p, h) \<in> set handlers. \<not> matchPattern routingKey p)"
  by (auto simp: firstMatch_def find_None_iff)

lemma onMessage_invoked:
  assumes inv: "Invoked p \<in> set (onMessage handlers json_parse (Some d))"
  shows "\<exists>h. firstMatch handlers (dlv_routingKey d) = Some (p, h)"
proof -
  obtain v where pv: "json_parse (dlv_content d) = Inr v"
    using inv by (cases "json_parse (dlv_content d)") (auto simp: onMessage_cases)
  obtain message where rm: "json_parse (dlv_content d) = Inr (JValue message)"
    using inv pv by (cases v) (auto simp: onMessage_cases)
  obtain q h where fm: "firstMatch handlers (dlv_routingKey d) = Some (q, h)"
    using inv rm
    by (cases "firstMatch handlers (dlv_routingKey d)") (auto simp: onMessage_cases)
  have "q = p"
    using inv rm fm by (cases "h message") (auto simp: onMessage_cases)
  with fm show ?thesis by blast
qed

lemma onMessage_unmatched:
  assumes "json_parse (dlv_content d) = Inr (JValue message)"
    and "\<forall>(p, h) \<in> set handlers. \<not> matchPattern (dlv_routingKey d) p"
  shows "onMessage handlers json_parse (Some d) = [LogReceived, LogWarnNoHandler, Ack]"
  using assms firstMatch_None_iff [of handlers "dlv_routingKey d"]
  by (simp add: onMessage_cases)

lemma onMessage_nack_iff:
  "NackRequeue \<in> set (onMessage handlers json_parse (Some d)) \<longleftrightarrow>
     (\<exists>err. json_parse (dlv_content d) = Inl err)
     \<or> json_parse (dlv_content d) = Inr JNull
     \<or> (\<exists>message p h err.
           json_parse (dlv_content d) = Inr (JValue message)
           \<and> firstMatch handlers (dlv_routingKey d) = Some (p, h)
           \<and> h message = Inl err)"
proof (cases "json_parse (dlv_content d)")
  case (Inl err)
  then show ?thesis by (simp add: onMessage_cases)
next
  case (Inr v)
  show ?thesis
  proof (cases v)
    case JNull
    with Inr show ?thesis by (simp add: onMessage_cases)
  next
    case (JValue message)
    show ?thesis
    proof (cases "firstMatch handlers (dlv_routingKey d)")
      case None
      with Inr JValue show ?thesis by (simp add: onMessage_cases)
    next
      case (Some ph)
      obtain p h where ph: "ph = (p, h)" by (cases ph)
      with Inr JValue Some show ?thesis
        by (cases "h message") (simp_all add: onMessage_cases)
    qed
  qed
qed

lemma onMessage_ack_xor_nack:
  "Ack \<in> set (onMessage handlers json_parse (Some d))
     \<longleftrightarrow> NackRequeue \<notin> set (onMessage handlers json_parse (Some d))"
  by (auto simp: onMessage_cases
           split: sum.splits json_value.splits option.splits prod.splits)

lemma onMessage_one_handler:
  "length (filter (\<lambda>e. \<exists>p. e = Invoked p) (onMessage handlers json_parse (Some d))) \<le> 1"
  by (auto simp: onMessage_cases
           split: sum.splits json_value.splits option.splits prod.splits)

text \<open>
  Claim C10 as stated fails: a delivery whose content is the JSON text \<open>null\<close> parses
  without error, and with a routing key that matches no registered pattern no handler
  runs; yet reading \<open>message.eventType\<close> of \<open>null\<close> throws inside the \<open>try\<close> block, so the
  delivery is negatively acknowledged and requeued instead of acknowledged.
\<close>

theorem onMessage_null_payload_requeued:
  "(\<lambda>c::string. if c = ''null'' then (Inr JNull :: string + string json_value)
                  else Inr (JValue c)) ''null'' = Inr JNull
   \<and> \<not> matchPattern ''board.created'' ''card.*''
   \<and> \<not> matchPattern ''board.created'' ''list.#''
   \<and> onMessage [(''card.*'', \<lambda>m::string. (Inr () :: string + unit)),
                (''list.#'', \<lambda>m. Inl ''failed'')]
        (\<lambda>c::string. if c = ''null'' then (Inr JNull :: string + string json_value)
                       else Inr (JValue c))
        (Some \<lparr>dlv_content = ''null'', dlv_routingKey = ''board.created''\<rparr>)
       = [LogError ''TypeError'', NackRequeue]"
  by (simp add: onMessage_def matchPattern_def)

text \<open>
  Claim C10, amended. For a delivery whose content parses to a value other than \<open>null\<close>
  and whose routing key matches no registered pattern, the callback logs a warning and
  then acknowledges, invoking no handler. A negative acknowledgement with requeue is
  sent exactly when \<open>JSON.parse\<close> throws, or the parsed value is \<open>null\<close>, or the matched
  handler throws; a delivery is either acknowledged or negatively acknowledged, never
  both. At most one handler is invoked per delivery, and it is the first registered
  entry whose pattern matches.
\<close>

theorem onMessage_ack_discipline:
  "(\<forall>message.
      json_parse (dlv_content d) = Inr (JValue message)
      \<and> (\<forall>(p, h) \<in> set handlers. \<not> matchPattern (dlv_routingKey d) p)
      \<longrightarrow> onMessage handlers json_parse (Some d) = [LogReceived, LogWarnNoHandler, Ack])
   \<and> (NackRequeue \<in> set (onMessage handlers json_parse (Some d)) \<longleftrightarrow>
        (\<exists>err. json_parse (dlv_content d) = Inl err)
        \<or> json_parse (dlv_content d) = Inr JNull
        \<or> (\<exists>message p h err.
              json_parse (dlv_content d) = Inr (JValue message)
              \<and> firstMatch handlers (dlv_routingKey d) = Some (p, h)
              \<and> h message = Inl err))
   \<and> (Ack \<in> set (onMessage handlers json_parse (Some d))
        \<longleftrightarrow> NackRequeue \<notin> set (onMessage handlers json_parse (Some d)))
   \<and> length (filter (\<lambda>e. \<exists>p. e = Invoked p) (onMessage handlers json_parse (Some d))) \<le> 1
   \<and> (\<forall>p. Invoked p \<in> set (onMessage handlers json_parse (Some d))
          \<longrightarrow> (\<exists>h. firstMatch handlers (dlv_routingKey d) = Some (p, h)))"
  using onMessage_unmatched [of json_parse d _ handlers]
    onMessage_nack_iff [of handlers json_parse d]
    onMessage_ack_xor_nack [of handlers json_parse d]
    onMessage_one_handler [of handlers json_parse d]
    onMessage_invoked [of _ handlers json_parse d]
  by blast

theorem onMessage_ack_discipline_witness:
  "(\<lambda>c::string. if c = ''null'' then (Inr JNull :: string + string json_value)
                  else Inr (JValue c)) ''{}'' = Inr (JValue ''{}'')
   \<and> \<not> matchPattern ''board.created'' ''card.*''
   \<and> \<not> matchPattern ''board.created'' ''list.#''
   \<and> onMessage [(''card.*'', \<lambda>m::string. (Inr () :: string + unit)),
                (''list.#'', \<lambda>m. Inl ''failed'')]
        (\<lambda>c::string. if c = ''null'' then (Inr JNull :: string + string json_value)
                       else Inr (JValue c))
        (Some \<lparr>dlv_content = ''{}'', dlv_routingKey = ''board.created''\<rparr>)
       = [LogReceived, LogWarnNoHandler, Ack]"
proof -
  let ?d = "\<lparr>dlv_content = ''{}'', dlv_routingKey = ''board.created''\<rparr>"
  let ?hs = "[(''card.*'', \<lambda>m::string. (Inr () :: string + unit)),
              (''list.#'', \<lambda>m. Inl ''failed'')]"
  let ?parse = "\<lambda>c::string. if c = ''null'' then (Inr JNull :: string + string json_value)
                             else Inr (JValue c)"
  have r: "?parse (dlv_content ?d) = Inr (JValue ''{}'')"
    by simp
  have m1: "\<not> matchPattern ''board.created'' ''card.*''"
    and m2: "\<not> matchPattern ''board.created'' ''list.#''"
    by (simp_all add: matchPattern_def)
  from m1 m2 have m: "\<forall>(p, h) \<in> set ?hs. \<not> matchPattern (dlv_routingKey ?d) p"
    by simp
  from onMessage_ack_discipline [of ?parse ?d ?hs] r m
  have "onMessage ?hs ?parse (Some ?d) = [LogReceived, LogWarnNoHandler, Ack]"
    by blast
  moreover have "?parse ''{}'' = Inr (JValue ''{}'')" by simp
  ultimately show ?thesis using m1 m2 by blast
qed

section \<open>Permission check\<close>

lemma find_None_key:
  "(find (\<lambda>m. f m = u) xs = None) = (u \<notin> f ` set xs)"
  by (induction xs) auto

lemma find_first_row:
  assumes "\<forall>x \<in> set pre. \<not> P x" "P m"
  shows "find P (pre @ m # post) = Some m"
  using assms by (induction pre) simp_all

lemma find_Some_split:
  "find P xs = Some m
     \<longleftrightarrow> (\<exists>pre post. xs = pre @ m # post \<and> P m \<and> (\<forall>x \<in> set pre. \<not> P x))"
proof
  assume "find P xs = Some m"
  then show "\<exists>pre post. xs = pre @ m # post \<and> P m \<and> (\<forall>x \<in> set pre. \<not> P x)"
  proof (induction xs)
    case Nil
    then show ?case by simp
  next
    case (Cons a as)
    show ?case
    proof (cases "P a")
      case True
      with Cons.prems have "a = m" by simp
      with True have "a # as = [] @ m # as \<and> P m \<and> (\<forall>x \<in> set []. \<not> P x)" by simp
      then show ?thesis by blast
    next
      case False
      with Cons.prems have "find P as = Some m" by simp
      from Cons.IH [OF this] obtain pre post
        where "as = pre @ m # post" "P m" "\<forall>x \<in> set pre. \<not> P x" by blast
      with False have "a # as = (a # pre) @ m # post \<and> P m \<and> (\<forall>x \<in> set (a # pre). \<not> P x)"
        by simp
      then show ?thesis by blast
    qed
  qed
next
  assume "\<exists>pre post. xs = pre @ m # post \<and> P m \<and> (\<forall>x \<in> set pre. \<not> P x)"
  then obtain pre post where "xs = pre @ m # post" "P m" "\<forall>x \<in> set pre. \<not> P x" by blast
  then show "find P xs = Some m" by (simp add: find_first_row)
qed

lemma hasPermission_first_row:
  "hasPermission b userId requiredRole \<longleftrightarrow>
     b_owner b = userId
     \<or> (\<exists>pre m post. b_members b = pre @ m # post \<and> mb_userId m = userId
            \<and> userId \<notin> mb_userId ` set pre
            \<and> js_ge (roleHierarchy (mb_role m)) (roleHierarchy requiredRole))"
proof (cases "b_owner b = userId")
  case True
  then show ?thesis by (simp add: hasPermission_def)
next
  case False
  show ?thesis
  proof (cases "find (\<lambda>m. mb_userId m = userId) (b_members b)")
    case None
    then have "userId \<notin> mb_userId ` set (b_members b)" by (simp add: find_None_key)
    then have "\<not> (\<exists>pre m post. b_members b = pre @ m # post \<and> mb_userId m = userId
            \<and> userId \<notin> mb_userId ` set pre
            \<and> js_ge (roleHierarchy (mb_role m)) (roleHierarchy requiredRole))"
      by auto
    moreover from None False have "\<not> hasPermission b userId requiredRole"
      by (simp add: hasPermission_def)
    ultimately show ?thesis using False by blast
  next
    case (Some m)
    then obtain pre post where sp: "b_members b = pre @ m # post" "mb_userId m = userId"
      "\<forall>x \<in> set pre. mb_userId x \<noteq> userId"
      by (auto simp: find_Some_split)
    have only: "m' = m"
      if "b_members b = pre' @ m' # post'" "mb_userId m' = userId"
        "userId \<notin> mb_userId ` set pre'" for pre' m' post'
    proof -
      from that(3) have "\<forall>x \<in> set pre'. \<not> mb_userId x = userId" by blast
      from find_first_row [of pre' "\<lambda>m. mb_userId m = userId" m' post', OF this that(2)] that(1)
      have "find (\<lambda>m. mb_userId m = userId) (b_members b) = Some m'" by simp
      with Some show ?thesis by simp
    qed
    from Some False
    have hp: "hasPermission b userId requiredRole
                \<longleftrightarrow> js_ge (roleHierarchy (mb_role m)) (roleHierarchy requiredRole)"
      by (simp add: hasPermission_def)
    show ?thesis
    proof
      assume "hasPermission b userId requiredRole"
      with hp sp have "b_members b = pre @ m # post \<and> mb_userId m = userId
            \<and> userId \<notin> mb_userId ` set pre
            \<and> js_ge (roleHierarchy (mb_role m)) (roleHierarchy requiredRole)"
        by auto
      then show "b_owner b = userId
          \<or> (\<exists>pre m post. b_members b = pre @ m # post \<and> mb_userId m = userId
            \<and> userId \<notin> mb_userId ` set pre
            \<and> js_ge (roleHierarchy (mb_role m)) (roleHierarchy requiredRole))"
        by blast
    next
      assume "b_owner b = userId
          \<or> (\<exists>pre m post. b_members b = pre @ m # post \<and> mb_userId m = userId
            \<and> userId \<notin> mb_userId ` set pre
            \<and> js_ge (roleHierarchy (mb_role m)) (roleHierarchy requiredRole))"
      with False obtain pre' m' post' where
        "b_members b = pre' @ m' # post'" "mb_userId m' = userId"
        "userId \<notin> mb_userId ` set pre'"
        and ge: "js_ge (roleHierarchy (mb_role m')) (roleHierarchy requiredRole)"
        by blast
      from only [OF this(1,2,3)] ge hp show "hasPermission b userId requiredRole" by simp
    qed
  qed
qed

lemma js_ge_rank:
  assumes "requiredRole \<in> {''viewer'', ''member'', ''admin''}"
  shows "js_ge (roleHierarchy role) (roleHierarchy requiredRole)
           \<longleftrightarrow> (\<exists>r k. roleRank role = Some r \<and> roleRank requiredRole = Some k \<and> k \<le> r)"
proof -
  from assms obtain k where k: "roleHierarchy requiredRole = Some (JNum k)"
    "roleRank requiredRole = Some k"
    by (auto simp: roleHierarchy_def roleRank_def)
  show ?thesis
  proof (cases "roleRank role")
    case None
    then have "role \<noteq> ''viewer''" "role \<noteq> ''member''" "role \<noteq> ''admin''"
      by (auto simp: roleRank_def split: if_splits)
    then have "roleHierarchy role = None \<or> (\<exists>t. roleHierarchy role = Some (JStr t))"
      by (simp add: roleHierarchy_def)
    with k None show ?thesis by auto
  next
    case (Some r)
    then have "roleHierarchy role = Some (JNum r)"
      by (auto simp: roleRank_def roleHierarchy_def split: if_splits)
    with k Some show ?thesis by simp
  qed
qed

lemma hasPermission_owner: "b_owner b = userId \<Longrightarrow> hasPermission b userId requiredRole"
  by (simp add: hasPermission_def)

lemma hasPermission_non_member:
  "b_owner b \<noteq> userId \<Longrightarrow> userId \<notin> mb_userId ` set (b_members b)
     \<Longrightarrow> \<not> hasPermission b userId requiredRole"
proof -
  assume "b_owner b \<noteq> userId" and "userId \<notin> mb_userId ` set (b_members b)"
  moreover from this(2) have "find (\<lambda>m. mb_userId m = userId) (b_members b) = None"
    by (simp add: find_None_key)
  ultimately show ?thesis by (simp add: hasPermission_def)
qed

text \<open>
  Claim C8 as stated fails when a user has more than one row in the members table
  (neither the schema nor the method excludes it): the lookup takes the first row for the
  user. With rows viewer and admin for \<open>u2\<close>, in that order, \<open>u2\<close> appears in the table with
  the role admin, yet \<open>hasPermission(u2, admin)\<close> is false.
\<close>

theorem hasPermission_first_row_decides:
  "\<not> hasPermission
        \<lparr> b_id = ''b1'', b_owner = ''u1'',
          b_members = [\<lparr>mb_userId = ''u2'', mb_role = ''viewer''\<rparr>,
                       \<lparr>mb_userId = ''u2'', mb_role = ''admin''\<rparr>],
          b_totalLists = 0, b_totalCards = 0 \<rparr> ''u2'' ''admin''
   \<and> \<lparr>mb_userId = ''u2'', mb_role = ''admin''\<rparr>
       \<in> set (b_members
                \<lparr> b_id = ''b1'', b_owner = ''u1'',
                  b_members = [\<lparr>mb_userId = ''u2'', mb_role = ''viewer''\<rparr>,
                               \<lparr>mb_userId = ''u2'', mb_role = ''admin''\<rparr>],
                  b_totalLists = 0, b_totalCards = 0 \<rparr>)
   \<and> roleRank ''admin'' = Some 3
   \<and> js_ge (roleHierarchy ''admin'') (roleHierarchy ''admin'')"
  by (simp add: hasPermission_def roleHierarchy_def roleRank_def)

text \<open>
  Claim C8, amended. \<open>hasPermission(userId, requiredRole)\<close> is true exactly when \<open>userId\<close>
  is the owner, or the first row for \<open>userId\<close> in the members table carries a role that
  the code's comparison puts at or above \<open>requiredRole\<close>; for \<open>requiredRole\<close> one of viewer,
  member, admin that comparison is the rank order viewer = 1 < member = 2 < admin = 3,
  and a role outside these three never suffices. The owner passes whatever role is
  required, and a user who is neither the owner nor in the table never passes.
\<close>

theorem hasPermission_iff:
  "(hasPermission b userId requiredRole \<longleftrightarrow>
      b_owner b = userId
      \<or> (\<exists>pre m post. b_members b = pre @ m # post \<and> mb_userId m = userId
             \<and> userId \<notin> mb_userId ` set pre
             \<and> js_ge (roleHierarchy (mb_role m)) (roleHierarchy requiredRole)))
   \<and> (requiredRole \<in> {''viewer'', ''member'', ''admin''} \<longrightarrow>
        (hasPermission b userId requiredRole \<longleftrightarrow>
           b_owner b = userId
           \<or> (\<exists>pre m post r k. b_members b = pre @ m # post \<and> mb_userId m = userId
                  \<and> userId \<notin> mb_userId ` set pre
                  \<and> roleRank (mb_role m) = Some r \<and> roleRank requiredRole = Some k
                  \<and> k \<le> r)))
   \<and> roleRank ''viewer'' = Some 1 \<and> roleRank ''member'' = Some 2
   \<and> roleRank ''admin'' = Some 3
   \<and> (b_owner b = userId \<longrightarrow> (\<forall>anyRole. hasPermission b userId anyRole))
   \<and> (b_owner b \<noteq> userId \<and> userId \<notin> mb_userId ` set (b_members b)
        \<longrightarrow> (\<forall>anyRole. \<not> hasPermission b userId anyRole))"
proof -
  have ranks: "roleRank ''viewer'' = Some 1" "roleRank ''member'' = Some 2"
    "roleRank ''admin'' = Some 3"
    by (simp_all add: roleRank_def)
  have ranked: "hasPermission b userId requiredRole \<longleftrightarrow>
           b_owner b = userId
           \<or> (\<exists>pre m post r k. b_members b = pre @ m # post \<and> mb_userId m = userId
                  \<and> userId \<notin> mb_userId ` set pre
                  \<and> roleRank (mb_role m) = Some r \<and> roleRank requiredRole = Some k
                  \<and> k \<le> r)"
    if "requiredRole \<in> {''viewer'', ''member'', ''admin''}"
    unfolding hasPermission_first_row [of b userId requiredRole] js_ge_rank [OF that]
    by blast
  from hasPermission_first_row [of b userId requiredRole] ranked ranks
    hasPermission_owner [of b userId] hasPermission_non_member [of b userId]
  show ?thesis by blast
qed

theorem hasPermission_iff_witness:
  "''member'' \<in> {''viewer'', ''member'', ''admin''}
   \<and> hasPermission
        \<lparr> b_id = ''b1'', b_owner = ''u1'',
          b_members = [\<lparr>mb_userId = ''u2'', mb_role = ''viewer''\<rparr>,
                       \<lparr>mb_userId = ''u2'', mb_role = ''admin''\<rparr>,
                       \<lparr>mb_userId = ''u3'', mb_role = ''member''\<rparr>],
          b_totalLists = 0, b_totalCards = 0 \<rparr> ''u3'' ''member''
   \<and> hasPermission
        \<lparr> b_id = ''b1'', b_owner = ''u1'',
          b_members = [\<lparr>mb_userId = ''u2'', mb_role = ''viewer''\<rparr>,
                       \<lparr>mb_userId = ''u2'', mb_role = ''admin''\<rparr>,
                       \<lparr>mb_userId = ''u3'', mb_role = ''member''\<rparr>],
          b_totalLists = 0, b_totalCards = 0 \<rparr> ''u1'' ''admin''"
proof -
  let ?pre = "[\<lparr>mb_userId = ''u2'', mb_role = ''viewer''\<rparr>,
               \<lparr>mb_userId = ''u2'', mb_role = ''admin''\<rparr>]"
  let ?m = "\<lparr>mb_userId = ''u3'', mb_role = ''member''\<rparr>"
  let ?b = "\<lparr> b_id = ''b1'', b_owner = ''u1'', b_members = ?pre @ ?m # [],
              b_totalLists = 0, b_totalCards = 0 \<rparr>"
  have req: "''member'' \<in> {''viewer'', ''member'', ''admin''}" by simp
  have row: "b_members ?b = ?pre @ ?m # [] \<and> mb_userId ?m = ''u3''
      \<and> ''u3'' \<notin> mb_userId ` set ?pre
      \<and> roleRank (mb_role ?m) = Some 2 \<and> roleRank ''member'' = Some 2 \<and> (2::nat) \<le> 2"
    by (simp add: roleRank_def)
  from hasPermission_iff [of ?b "''u3''" "''member''"] req row
  have "hasPermission ?b ''u3'' ''member''" by blast
  moreover have own: "b_owner ?b = ''u1''" by simp
  from hasPermission_iff [of ?b "''u1''" "''admin''"] own
  have "hasPermission ?b ''u1'' ''admin''" by blast
  ultimately show ?thesis using req by simp
qed

section \<open>Real-time layer: rooms, disconnect and typing timers\<close>

lemma personal_room_kept_step:
  "ev \<noteq> Disconnect \<Longrightarrow> user_room u \<in> ss_rooms s
     \<Longrightarrow> user_room u \<in> ss_rooms (handle_event s ev)"
  by (cases ev)
     (auto simp: on_join_board_def on_leave_board_def on_start_typing_def on_stop_typing_def
        on_update_presence_def on_typing_timeout_def joinBoardRoom_def
        leaveBoardRoom_def emit_def board_room_def user_room_def Let_def
        split: option.splits)

lemma personal_room_kept:
  "Disconnect \<notin> set evs \<Longrightarrow> user_room u \<in> ss_rooms s
     \<Longrightarrow> user_room u \<in> ss_rooms (handle_events s evs)"
  unfolding handle_events_def
proof (induction evs arbitrary: s)
  case Nil
  then show ?case by simp
next
  case (Cons ev evs)
  from Cons.prems have "ev \<noteq> Disconnect" and rest: "Disconnect \<notin> set evs" by auto
  from personal_room_kept_step [OF this(1) Cons.prems(2)]
  have "user_room u \<in> ss_rooms (handle_event s ev)" .
  from Cons.IH [OF rest this] show ?case by simp
qed

text \<open>
  Claim C6. A session should be in at most one board room at any time. The \<open>leave_board\<close>
  handler leaves the room named by the client and clears \<open>currentBoard\<close> whatever board
  the session is on, so after joining board A, a \<open>leave_board\<close> for another board B
  forgets A without leaving its room, and the next join (to C) leaves nothing: the
  session ends up in the rooms of both A and C, next to its personal room.
\<close>

theorem join_leave_other_join_two_rooms:
  "boardRooms (handle_events (on_connection ''u1'')
       [JoinBoard ''A'', LeaveBoard ''B'', JoinBoard ''C'']) = {''board:A'', ''board:C''}
   \<and> card (boardRooms (handle_events (on_connection ''u1'')
       [JoinBoard ''A'', LeaveBoard ''B'', JoinBoard ''C''])) = 2
   \<and> ss_rooms (handle_events (on_connection ''u1'')
       [JoinBoard ''A'', LeaveBoard ''B'', JoinBoard ''C''])
       = {''user:u1'', ''board:A'', ''board:C''}"
proof -
  have "boardRooms (handle_events (on_connection ''u1'')
       [JoinBoard ''A'', LeaveBoard ''B'', JoinBoard ''C'']) = {''board:A'', ''board:C''}"
    by (auto simp: handle_events_def on_connection_def on_join_board_def on_leave_board_def
          joinBoardRoom_def leaveBoardRoom_def emit_def board_room_def user_room_def
          boardRooms_def)
  moreover have "ss_rooms (handle_events (on_connection ''u1'')
       [JoinBoard ''A'', LeaveBoard ''B'', JoinBoard ''C''])
       = {''user:u1'', ''board:A'', ''board:C''}"
    by (auto simp: handle_events_def on_connection_def on_join_board_def on_leave_board_def
          joinBoardRoom_def leaveBoardRoom_def emit_def board_room_def user_room_def)
  ultimately show ?thesis by simp
qed

text \<open>
  Claim C9 as stated fails: the disconnect handler has no access to the typing timer
  (a variable local to \<open>handleTypingIndicators\<close>). A session that joins board A, starts
  typing and disconnects still has its timeout pending, and when the timeout runs the
  "stopped typing" broadcast goes out after the "offline" broadcast.
\<close>

theorem disconnect_keeps_typing_timer:
  "ss_typingTimer (handle_events (on_connection ''u1'')
       [JoinBoard ''A'', StartTyping ''A'' ''c1'', Disconnect]) = Some (''A'', ''c1'')
   \<and> ss_outbox (handle_events (on_connection ''u1'')
       [JoinBoard ''A'', StartTyping ''A'' ''c1'', Disconnect, TypingTimeout])
     = [(''board:A'', UserJoinedBoard), (''board:A'', UserTyping ''c1''),
        (''board:A'', UserLeftBoard), (''board:A'', UserPresenceUpdated ''offline''),
        (''board:A'', UserStoppedTyping ''c1'')]"
  by (simp add: handle_events_def on_connection_def on_join_board_def on_disconnect_def
       transport_close_def on_start_typing_def on_typing_timeout_def
       joinBoardRoom_def leaveBoardRoom_def emit_def board_room_def user_room_def)

text \<open>
  Claim C9, amended. On transport loss (disconnect) of a session in any state: the
  session's room membership is cleaned up, so that it is in no room afterwards, and a
  presence "offline" broadcast is sent to the last-known board room, the one of its
  current board, if the session had one, after the departure has been announced to that
  room. A pending typing-indicator timer is not cancelled: it is as it was before the
  disconnect, and when it runs the "stopped typing" broadcast still goes out.
\<close>

theorem transport_close_effect:
  "ss_rooms (transport_close s) = {}
   \<and> boardRooms (transport_close s) = {}
   \<and> (\<forall>b. ss_currentBoard s = Some b \<and> b \<noteq> [] \<longrightarrow>
          ss_outbox (transport_close s)
            = ss_outbox s @ [(board_room b, UserLeftBoard),
                             (board_room b, UserPresenceUpdated ''offline'')])
   \<and> ss_typingTimer (transport_close s) = ss_typingTimer s
   \<and> (\<forall>b c. ss_typingTimer s = Some (b, c) \<longrightarrow>
          ss_outbox (on_typing_timeout (transport_close s))
            = ss_outbox (transport_close s) @ [(board_room b, UserStoppedTyping c)])"
proof -
  have rooms: "ss_rooms (transport_close s) = {}"
    by (cases "ss_currentBoard s")
       (simp_all add: transport_close_def on_disconnect_def leaveBoardRoom_def emit_def)
  then have "boardRooms (transport_close s) = {}"
    by (simp add: boardRooms_def)
  moreover have timer: "ss_typingTimer (transport_close s) = ss_typingTimer s"
    by (cases "ss_currentBoard s")
       (simp_all add: transport_close_def on_disconnect_def leaveBoardRoom_def emit_def)
  moreover have "ss_outbox (transport_close s)
            = ss_outbox s @ [(board_room b, UserLeftBoard),
                             (board_room b, UserPresenceUpdated ''offline'')]"
    if "ss_currentBoard s = Some b" "b \<noteq> []" for b
    using that
    by (simp add: transport_close_def on_disconnect_def leaveBoardRoom_def emit_def)
  moreover have "ss_outbox (on_typing_timeout (transport_close s))
            = ss_outbox (transport_close s) @ [(board_room b, UserStoppedTyping c)]"
    if "ss_typingTimer s = Some (b, c)" for b c
    using that timer by (simp add: on_typing_timeout_def emit_def)
  ultimately show ?thesis using rooms by blast
qed

theorem transport_close_effect_witness:
  "ss_currentBoard (handle_events (on_connection ''u1'') [JoinBoard ''A'']) = Some ''A''
   \<and> ss_rooms (handle_events (on_connection ''u1'') [JoinBoard ''A''])
       = {''user:u1'', ''board:A''}
   \<and> ss_rooms (transport_close (handle_events (on_connection ''u1'') [JoinBoard ''A''])) = {}
   \<and> ss_outbox (transport_close (handle_events (on_connection ''u1'') [JoinBoard ''A'']))
       = ss_outbox (handle_events (on_connection ''u1'') [JoinBoard ''A''])
           @ [(board_room ''A'', UserLeftBoard),
              (board_room ''A'', UserPresenceUpdated ''offline'')]"
proof -
  let ?s = "handle_events (on_connection ''u1'') [JoinBoard ''A'']"
  have c: "ss_currentBoard ?s = Some ''A''"
    by (simp add: handle_events_def on_connection_def on_join_board_def joinBoardRoom_def
          emit_def)
  have r: "ss_rooms ?s = {''user:u1'', ''board:A''}"
    by (auto simp: handle_events_def on_connection_def on_join_board_def joinBoardRoom_def
          emit_def board_room_def user_room_def)
  have ne: "''A'' \<noteq> []" by simp
  from transport_close_effect [of ?s] c ne
  have "ss_rooms (transport_close ?s) = {}"
    and "ss_outbox (transport_close ?s)
       = ss_outbox ?s @ [(board_room ''A'', UserLeftBoard),
                         (board_room ''A'', UserPresenceUpdated ''offline'')]"
    by blast+
  with c r show ?thesis by blast
qed

section \<open>Arithmetic of contiguous position lists\<close>

lemma contig_Nil: "contig []"
  by (simp add: contig_def)

lemma contig_mem: "contig ps \<Longrightarrow> x \<in> set ps \<longleftrightarrow> 0 \<le> x \<and> x < int (length ps)"
  by (auto simp: contig_def)






text \<open>Move \<open>old\<close> to \<open>new\<close>: a permutation of the positions.\<close>




section \<open>What each list request does to the store\<close>


lemma createList_allowed:
  assumes "canCreate s userId boardId"
  shows "oc_status (createList dp s userId newId name boardId position) = CREATED"
    and "oc_message (createList dp s userId newId name boardId position)
           = ''List created successfully''"
    and "st_lists (oc_store (createList dp s userId newId name boardId position))
           = (case position of
                None \<Rightarrow> st_lists s
              | Some p \<Rightarrow>
                  updateManyInc (\<lambda>d. l_boardId d = boardId \<and> l_position d \<ge> p
                                       \<and> \<not> l_isArchived d) 1 (st_lists s))
             @ [\<lparr> l_id = newId, l_name = dp_capitalizeWords dp name, l_boardId = boardId,
                  l_position = createdPosition s boardId position, l_isArchived = False \<rparr>]"
    and "st_cards (oc_store (createList dp s userId newId name boardId position)) = st_cards s"
    and "st_workspaces (oc_store (createList dp s userId newId name boardId position))
           = st_workspaces s"
  using assms
  by (auto simp: canCreate_def createList_def respond_def createdPosition_def Let_def
           split: option.splits)


lemma updateListById_after_updateManyInc:
  assumes "\<And>d. flt d \<Longrightarrow> l_id d \<noteq> i"
  shows "updateListById i f (updateManyInc flt k ls)
           = map (\<lambda>d. if l_id d = i then f d
                       else if flt d then d\<lparr>l_position := l_position d + k\<rparr> else d) ls"
  using assms by (auto simp: updateListById_def updateManyInc_def)

lemma moveList_allowed:
  assumes "canEdit s userId listId ''member''"
    and "findListById (st_lists s) listId = Some list"
  shows "oc_store (moveList dp s userId listId newPosition)
           = (if l_position list = newPosition then s
              else s\<lparr>st_lists := map (spec_move (l_boardId list) listId
                                           (l_position list) newPosition) (st_lists s)\<rparr>)"
    and "oc_status (moveList dp s userId listId newPosition) = OK"
    and "l_position list = newPosition
           \<Longrightarrow> oc_effects (moveList dp s userId listId newPosition) = []"
proof -
  from assms obtain board where
    b: "findBoardById (st_boards s) (l_boardId list) = Some board"
      "hasPermission board userId ''member''"
    by (auto simp: canEdit_def split: option.splits)
  show "oc_status (moveList dp s userId listId newPosition) = OK"
    using assms(2) b by (simp add: moveList_def respond_def Let_def)
  show "oc_effects (moveList dp s userId listId newPosition) = []"
    if "l_position list = newPosition"
    using that assms(2) b by (simp add: moveList_def respond_def Let_def)
  show "oc_store (moveList dp s userId listId newPosition)
           = (if l_position list = newPosition then s
              else s\<lparr>st_lists := map (spec_move (l_boardId list) listId
                                           (l_position list) newPosition) (st_lists s)\<rparr>)"
  proof (cases "l_position list = newPosition")
    case True
    with assms(2) b show ?thesis by (simp add: moveList_def respond_def Let_def)
  next
    case False
    show ?thesis
    proof (cases "newPosition > l_position list")
      case True
      have "updateListById listId (\<lambda>d. d\<lparr>l_position := newPosition\<rparr>)
              (updateManyInc
                 (\<lambda>d. l_boardId d = l_boardId list
                       \<and> l_position d > l_position list \<and> l_position d \<le> newPosition
                       \<and> l_id d \<noteq> listId \<and> \<not> l_isArchived d) (- 1) (st_lists s))
            = map (spec_move (l_boardId list) listId (l_position list) newPosition) (st_lists s)"
        using True
        by (subst updateListById_after_updateManyInc) (auto simp: spec_move_def)
      with False True assms(2) b show ?thesis
        by (simp add: moveList_def respond_def Let_def)
    next
      case F2: False
      have "updateListById listId (\<lambda>d. d\<lparr>l_position := newPosition\<rparr>)
              (updateManyInc
                 (\<lambda>d. l_boardId d = l_boardId list
                       \<and> l_position d \<ge> newPosition \<and> l_position d < l_position list
                       \<and> l_id d \<noteq> listId \<and> \<not> l_isArchived d) 1 (st_lists s))
            = map (spec_move (l_boardId list) listId (l_position list) newPosition) (st_lists s)"
        using False F2
        by (subst updateListById_after_updateManyInc) (auto simp: spec_move_def)
      with False F2 assms(2) b show ?thesis
        by (simp add: moveList_def respond_def Let_def)
    qed
  qed
qed

lemma archiveList_denied:
  "\<not> canEdit s userId listId ''member''
     \<Longrightarrow> oc_store (archiveList dp s userId listId) = s"
  by (auto simp: canEdit_def archiveList_def respond_def split: option.splits)






section \<open>Collections: ids and scopes under the store operations\<close>

lemma findListById_Some:
  "findListById ls i = Some list \<Longrightarrow> list \<in> set ls \<and> l_id list = i"
  by (auto simp: findListById_def find_Some_iff)













section \<open>Scope positions after each store operation\<close>




section \<open>Contiguity is kept by every request within the contract\<close>










section \<open>List positions: the claims\<close>

lemmas example_defs = example_deps_def broker_down_def example_list_def example_board_def
  example_store_def empty_board_store_def

lemma example_canEdit: "canEdit example_store ''u1'' ''L3'' ''member''"
  by (simp add: canEdit_def example_defs findListById_def findBoardById_def hasPermission_def)

lemma example_find:
  "findListById (st_lists example_store) ''L3'' = Some (example_list ''L3'' 3)"
  by (simp add: example_defs findListById_def)

lemma example_canCreate: "canCreate empty_board_store ''u1'' ''b1''"
  by (simp add: canCreate_def example_defs findBoardById_def hasPermission_def isMember_def)



text \<open>
  Claim C3. When the request passes the guards, moving list \<open>listId\<close> from its position
  \<open>old\<close> to \<open>new\<close> rewrites the collection by the specification's move rule: for
  \<open>new > old\<close> every other list of the scope with \<open>old < position \<le> new\<close> steps back by
  one, for \<open>new < old\<close> every other list of the scope with \<open>new \<le> position < old\<close> steps
  forward by one, the moved list gets \<open>new\<close>, and no other document changes; for
  \<open>new = old\<close> the store is left as it is and nothing is emitted. The scenario (lists at
  0, 1, 2, 3, the one at 3 moved to 1) is the instance proved after it.
\<close>

theorem moveList_effect:
  "canEdit s userId listId ''member'' \<Longrightarrow> findListById (st_lists s) listId = Some list \<Longrightarrow>
     oc_store (moveList dp s userId listId newPosition)
       = (if l_position list = newPosition then s
          else s\<lparr>st_lists := map (spec_move (l_boardId list) listId
                                       (l_position list) newPosition) (st_lists s)\<rparr>)
     \<and> (l_position list = newPosition
          \<longrightarrow> oc_effects (moveList dp s userId listId newPosition) = [])"
proof -
  assume a: "canEdit s userId listId ''member''"
    and f: "findListById (st_lists s) listId = Some list"
  from moveList_allowed(1) [OF a f, where dp = dp and newPosition = newPosition]
    moveList_allowed(3) [OF a f, where dp = dp and newPosition = newPosition]
  show ?thesis by blast
qed

theorem moveList_effect_witness:
  "canEdit example_store ''u1'' ''L3'' ''member''
   \<and> findListById (st_lists example_store) ''L3'' = Some (example_list ''L3'' 3)
   \<and> map (\<lambda>d. (l_id d, l_position d))
        (st_lists (oc_store (moveList example_deps example_store ''u1'' ''L3'' 1)))
       = [(''L0'', 0), (''L1'', 2), (''L2'', 3), (''L3'', 1)]"
proof -
  from moveList_effect [OF example_canEdit example_find,
      where dp = example_deps and newPosition = 1]
  have "oc_store (moveList example_deps example_store ''u1'' ''L3'' 1)
          = example_store\<lparr>st_lists := map (spec_move ''b1'' ''L3'' 3 1) (st_lists example_store)\<rparr>"
    by (simp add: example_list_def)
  then have "map (\<lambda>d. (l_id d, l_position d))
        (st_lists (oc_store (moveList example_deps example_store ''u1'' ''L3'' 1)))
       = [(''L0'', 0), (''L1'', 2), (''L2'', 3), (''L3'', 1)]"
    by (simp add: example_store_def example_list_def spec_move_def)
  with example_canEdit example_find show ?thesis by blast
qed

text \<open>
  Claim C4 as stated fails: no request position is clamped. Creating a list at position 5
  on a board without lists stores it at position 5, not 0; and moving the list at
  position 0 to position 10 on a board of four lists stores it at position 10.
\<close>

theorem position_not_clamped:
  "activeLists (st_lists empty_board_store) ''b1'' = []
   \<and> scopePositions (oc_store (createList example_deps empty_board_store
                        ''u1'' ''N1'' ''Todo'' ''b1'' (Some 5))) ''b1'' = [5]
   \<and> length (activeLists (st_lists example_store) ''b1'') = 4
   \<and> scopePositions (oc_store (moveList example_deps example_store ''u1'' ''L0'' 10)) ''b1''
       = [10, 0, 1, 2]"
  by (simp add: example_defs createList_def moveList_def scopePositions_def activeLists_def
        findBoardById_def findListById_def hasPermission_def isMember_def respond_def
        updateManyInc_def updateListById_def saveBoard_def Let_def)

lemma findListById_map:
  assumes "\<And>d. l_id (g d) = l_id d"
  shows "findListById (map g ls) i = map_option g (findListById ls i)"
  using assms by (induction ls) (simp_all add: findListById_def)

text \<open>
  Claim C4, amended. A request position is used as given, whatever its relation to the
  number of lists in the scope: a created list is stored last in the collection with
  exactly the requested position, and after a move the moved list has exactly the
  requested position. With no position requested, a created list gets one more than the
  greatest position of the scope, which is 0 in an empty scope.
\<close>

theorem requested_position_used:
  "(canCreate s userId boardId \<longrightarrow>
      last (st_lists (oc_store (createList dp s userId newId name boardId position)))
        = \<lparr> l_id = newId, l_name = dp_capitalizeWords dp name, l_boardId = boardId,
            l_position = createdPosition s boardId position, l_isArchived = False \<rparr>)
   \<and> createdPosition s boardId (Some p) = p
   \<and> (activeLists (st_lists s) boardId = [] \<longrightarrow> createdPosition s boardId None = 0)
   \<and> (canEdit s userId listId ''member''
        \<longrightarrow> map_option l_position
              (findListById (st_lists (oc_store (moveList dp s userId listId newPosition)))
                 listId)
            = Some newPosition)"
proof -
  have "last (st_lists (oc_store (createList dp s userId newId name boardId position)))
        = \<lparr> l_id = newId, l_name = dp_capitalizeWords dp name, l_boardId = boardId,
            l_position = createdPosition s boardId position, l_isArchived = False \<rparr>"
    if "canCreate s userId boardId"
    by (simp add: createList_allowed(3) [OF that])
  moreover have "createdPosition s boardId (Some p) = p"
    by (simp add: createdPosition_def)
  moreover have "createdPosition s boardId None = 0"
    if "activeLists (st_lists s) boardId = []"
    using that by (simp add: createdPosition_def maxPosition_def)
  moreover have "map_option l_position
              (findListById (st_lists (oc_store (moveList dp s userId listId newPosition)))
                 listId) = Some newPosition"
    if ce: "canEdit s userId listId ''member''"
  proof -
    from ce obtain list where f: "findListById (st_lists s) listId = Some list"
      by (auto simp: canEdit_def split: option.splits)
    from findListById_Some [OF f] have lid: "l_id list = listId" by simp
    show ?thesis
    proof (cases "l_position list = newPosition")
      case True
      with moveList_allowed(1) [OF ce f, of dp newPosition] f show ?thesis by simp
    next
      case False
      have "findListById (map (spec_move (l_boardId list) listId (l_position list) newPosition)
                            (st_lists s)) listId
              = map_option (spec_move (l_boardId list) listId (l_position list) newPosition)
                  (findListById (st_lists s) listId)"
        by (rule findListById_map) (simp add: spec_move_def)
      with False moveList_allowed(1) [OF ce f, of dp newPosition] f lid show ?thesis
        by (simp add: spec_move_def)
    qed
  qed
  ultimately show ?thesis by blast
qed

theorem requested_position_used_witness:
  "canCreate empty_board_store ''u1'' ''b1''
   \<and> activeLists (st_lists empty_board_store) ''b1'' = []
   \<and> l_position (last (st_lists (oc_store (createList example_deps empty_board_store
                                            ''u1'' ''N1'' ''Todo'' ''b1'' None)))) = 0
   \<and> l_position (last (st_lists (oc_store (createList example_deps empty_board_store
                                            ''u1'' ''N1'' ''Todo'' ''b1'' (Some 5))))) = 5
   \<and> canEdit example_store ''u1'' ''L3'' ''member''
   \<and> map_option l_position
        (findListById (st_lists (oc_store (moveList example_deps example_store ''u1'' ''L3'' 10)))
           ''L3'') = Some 10"
proof -
  have e: "activeLists (st_lists empty_board_store) ''b1'' = []"
    by (simp add: example_defs activeLists_def)
  note t = requested_position_used [where s = empty_board_store and userId = "''u1''"
      and boardId = "''b1''" and dp = example_deps and newId = "''N1''" and name = "''Todo''"
      and listId = "''L3''" and newPosition = 0]
  from t [where position = None and p = 0] example_canCreate e
  have "l_position (last (st_lists (oc_store (createList example_deps empty_board_store
                                            ''u1'' ''N1'' ''Todo'' ''b1'' None)))) = 0"
    by simp
  moreover from t [where position = "Some 5" and p = 5] example_canCreate
  have "l_position (last (st_lists (oc_store (createList example_deps empty_board_store
                                            ''u1'' ''N1'' ''Todo'' ''b1'' (Some 5))))) = 5"
    by simp
  moreover from requested_position_used [where s = example_store and userId = "''u1''"
      and boardId = "''b1''" and dp = example_deps and newId = "''N1''" and name = "''Todo''"
      and position = None and p = 0 and listId = "''L3''" and newPosition = 10]
    example_canEdit
  have "map_option l_position
        (findListById (st_lists (oc_store (moveList example_deps example_store ''u1'' ''L3'' 10)))
           ''L3'') = Some 10"
    by blast
  ultimately show ?thesis using example_canCreate example_canEdit e by blast
qed


section \<open>Contiguity of list positions\<close>


text \<open>
  Deleting a list that was archived before shifts the non-archived lists after its old
  position once more: the scope then holds a position twice.
\<close>

lemma delete_archived_list_shifts_again:
  "scopePositions (handle_requests example_deps example_store
      [ArchiveList ''u1'' ''L0'', DeleteList ''u1'' ''L0'']) ''b1'' = [0, 0, 1]"
  by (simp add: example_defs archiveList_def deleteList_def scopePositions_def activeLists_def
        findBoardById_def findListById_def hasPermission_def respond_def
        updateManyInc_def updateListById_def saveBoard_def Let_def)






section \<open>Publishing is best effort\<close>
















end
